theory Spec2Isabelle
  imports Main
begin

section \<open>Strings\<close>

text \<open>
  A Go string is modelled as a \<^typ>\<open>string\<close>, a list of bytes. \<open>strings.TrimSpace\<close>
  and \<open>strings.ToLower\<close> are modelled on the ASCII range: the six ASCII white-space
  characters are trimmed and the letters \<open>A\<close> to \<open>Z\<close> are lowered; every other byte is
  left as it is. The theorems below about level strings are stated through
  \<open>ToLower (TrimSpace l)\<close>, the expression the source compares.
\<close>

definition isSpace :: "char \<Rightarrow> bool" where
  "isSpace c = (c = CHR '' '' \<or> c = CHR 0x09 \<or> c = CHR 0x0A \<or> c = CHR 0x0B
                \<or> c = CHR 0x0C \<or> c = CHR 0x0D)"

definition TrimSpace :: "string \<Rightarrow> string" where
  "TrimSpace s = rev (dropWhile isSpace (rev (dropWhile isSpace s)))"

definition toLowerChar :: "char \<Rightarrow> char" where
  "toLowerChar c =
     (if (65::nat) \<le> of_char c \<and> of_char c \<le> (90::nat)
      then char_of (of_char c + (32::nat)) else c)"

definition ToLower :: "string \<Rightarrow> string" where
  "ToLower s = map toLowerChar s"

section \<open>Severity levels and entry values\<close>

text \<open>
  Package \<open>level\<close> of go-kit has four level values, \<open>errorValue\<close>, \<open>warnValue\<close>,
  \<open>infoValue\<close> and \<open>debugValue\<close>; its interface \<open>level.Value\<close> has an unexported method,
  so that these four are the values the type assertion \<open>.(level.Value)\<close> accepts.
\<close>

datatype levelValue = ErrorValue | WarnValue | InfoValue | DebugValue

fun String :: "levelValue \<Rightarrow> string" where
  "String ErrorValue = ''error''"
| "String WarnValue = ''warn''"
| "String InfoValue = ''info''"
| "String DebugValue = ''debug''"

text \<open>The order of the severities: debug \<open><\<close> info \<open><\<close> warn \<open><\<close> error.\<close>

fun rank :: "levelValue \<Rightarrow> nat" where
  "rank DebugValue = 0"
| "rank InfoValue = 1"
| "rank WarnValue = 2"
| "rank ErrorValue = 3"

text \<open>
  An element of a key/value sequence is an \<open>interface{}\<close>: a string, a level value,
  one of the values go-kit itself puts into an entry (the time-stamp valuer, the caller
  valuer with its stack depth, the marker of a missing value), or any other value
  (\<open>Other\<close>, which covers numbers, named string types and the test's
  \<open>customLevelValue\<close>).
\<close>

datatype val =
    Str string
  | Lvl levelValue
  | DefaultTimestampUTC
  | Caller nat
  | ErrMissingValue
  | Other nat

text \<open>\<open>level.Key()\<close>: the string \<open>"level"\<close> held in an \<open>interface{}\<close>.\<close>

definition Key :: val where
  "Key = Str ''level''"

section \<open>The outside world\<close>

datatype stream = Stdout | Stderr

text \<open>A sink made by \<open>log.NewSyncWriter\<close>: the stream it wraps and its identity.\<close>

datatype syncWriter = SyncWriter stream nat

datatype error = WriteError nat

datatype panic = IndexOutOfRange | NilDereference

text \<open>
  The external collaborators are observed through the calls made on them:
  \<open>written s\<close> is the sequence of records handed to the encoder of stream \<open>s\<close>,
  \<open>counted c\<close> the sequence of labels with which counter \<open>c\<close> was incremented by one,
  and \<open>wresult s n\<close> is what the \<open>n\<close>-th write on stream \<open>s\<close> returns (\<open>None\<close> is
  \<open>nil\<close>), which the environment decides.
\<close>

record world =
  written :: "stream \<Rightarrow> val list list"
  counted :: "nat \<Rightarrow> string list"
  wresult :: "stream \<Rightarrow> nat \<Rightarrow> error option"

text \<open>\<open>counter.With("level", label).Add(1)\<close>\<close>

definition Add :: "nat \<Rightarrow> string \<Rightarrow> world \<Rightarrow> world" where
  "Add c label w = w\<lparr>counted := (counted w)(c := counted w c @ [label])\<rparr>"

section \<open>The loggers of go-kit that the package builds on\<close>

text \<open>
  \<open>log.NewJSONLogger\<close>, the context logger behind \<open>log.With\<close> and the filter behind
  \<open>level.NewFilter\<close>. An \<open>io.Writer\<close> may be \<open>nil\<close>, hence the option.
\<close>

datatype appender =
    JSONLogger "syncWriter option"
  | Context appender "val list"
  | Filter appender "levelValue set"

definition NewJSONLogger :: "syncWriter option \<Rightarrow> appender" where
  "NewJSONLogger wr = JSONLogger wr"

text \<open>A sequence of odd length is completed with \<open>ErrMissingValue\<close>.\<close>

definition padMissing :: "val list \<Rightarrow> val list" where
  "padMissing kvs = (if odd (length kvs) then kvs @ [ErrMissingValue] else kvs)"

text \<open>
  \<open>log.With(logger, keyvals...)\<close>: no key/values give the logger back; a context is
  extended; any other logger is wrapped in a new context.
\<close>

fun With :: "appender \<Rightarrow> val list \<Rightarrow> appender" where
  "With l [] = l"
| "With (Context l pre) kvs = Context l (padMissing (pre @ kvs))"
| "With l kvs = Context l (padMissing kvs)"

text \<open>
  The options of \<open>level.NewFilter\<close> are the sets of allowed levels; \<open>AllowAll\<close> is
  \<open>AllowDebug\<close> in go-kit.
\<close>

definition AllowError :: "levelValue set" where
  "AllowError = {ErrorValue}"

definition AllowWarn :: "levelValue set" where
  "AllowWarn = {ErrorValue, WarnValue}"

definition AllowInfo :: "levelValue set" where
  "AllowInfo = {ErrorValue, WarnValue, InfoValue}"

definition AllowDebug :: "levelValue set" where
  "AllowDebug = {ErrorValue, WarnValue, InfoValue, DebugValue}"

definition AllowAll :: "levelValue set" where
  "AllowAll = AllowDebug"

definition NewFilter :: "appender \<Rightarrow> levelValue set \<Rightarrow> appender" where
  "NewFilter next opt = Filter next opt"

text \<open>
  The filter of go-kit looks for the level of an entry in the value positions:
  \<^verbatim>\<open>
  for i := 1; i < len(keyvals); i += 2 {
      if v, ok := keyvals[i].(*levelValue); ok {
          hasLevel = true
          levelAllowed = l.allowed&v.level != 0
          break
      }
  }
  \<close>
\<close>

fun firstLevel :: "val list \<Rightarrow> levelValue option" where
  "firstLevel [] = None"
| "firstLevel [k] = None"
| "firstLevel (k # v # rest) =
     (case v of Lvl lv \<Rightarrow> Some lv | _ \<Rightarrow> firstLevel rest)"

text \<open>
  \<open>Log\<close> of the three loggers. The JSON logger hands the record to its writer (a
  \<open>nil\<close> writer panics); the context puts its key/values in front; the filter drops
  an entry whose level is not allowed, returning \<open>nil\<close>, and passes every other entry on.
\<close>

fun appenderLog :: "appender \<Rightarrow> val list \<Rightarrow> world \<Rightarrow> (panic + error option) \<times> world" where
  "appenderLog (JSONLogger None) kvs w = (Inl NilDereference, w)"
| "appenderLog (JSONLogger (Some (SyncWriter s i))) kvs w =
     (Inr (wresult w s (length (written w s))),
      w\<lparr>written := (written w)(s := written w s @ [kvs])\<rparr>)"
| "appenderLog (Context next pre) kvs w = appenderLog next (padMissing (pre @ kvs)) w"
| "appenderLog (Filter next allowed) kvs w =
     (case firstLevel kvs of
        Some lv \<Rightarrow> if lv \<in> allowed then appenderLog next kvs w else (Inr None, w)
      | None \<Rightarrow> appenderLog next kvs w)"

section \<open>Configuration\<close>

record Config =
  Format :: string
  Level :: string

definition DefaultFormat :: string where
  "DefaultFormat = ''json''"

definition DefaultLevel :: string where
  "DefaultLevel = ''info''"

definition Configuration :: Config where
  "Configuration = \<lparr>Format = ''json'', Level = ''info''\<rparr>"

definition isLevelNone :: "string \<Rightarrow> bool" where
  "isLevelNone l = (''none'' = ToLower (TrimSpace l))"

definition getValidLevel :: "string \<Rightarrow> levelValue set" where
  "getValidLevel l =
     (let s = ToLower (TrimSpace l) in
      if s = ''error'' then AllowError
      else if s = ''warn'' then AllowWarn
      else if s = ''info'' then AllowInfo
      else if s = ''debug'' then AllowDebug
      else AllowAll)"

text \<open>The \<open>switch\<close> of \<open>createLoggerFactory\<close> has a \<open>default\<close> case only.\<close>

definition createLoggerFactory :: "string \<Rightarrow> (syncWriter option \<Rightarrow> appender)" where
  "createLoggerFactory loggerType =
     (case ToLower (TrimSpace loggerType) of _ \<Rightarrow> NewJSONLogger)"

section \<open>The shared writers\<close>

text \<open>
  The package variables \<open>stdoutSyncWriter\<close>, \<open>stderrSyncWriter\<close> and
  \<open>initializeWritersOnce\<close> (the flag of the \<open>sync.Once\<close>), together with the list of
  all sinks that \<open>log.NewSyncWriter\<close> has made so far.
\<close>

record globals =
  stdoutSyncWriter :: "syncWriter option"
  stderrSyncWriter :: "syncWriter option"
  initializeWritersOnce :: bool
  allocated :: "syncWriter list"

definition initialGlobals :: globals where
  "initialGlobals = \<lparr>stdoutSyncWriter = None, stderrSyncWriter = None,
                     initializeWritersOnce = False, allocated = []\<rparr>"

definition NewSyncWriter :: "stream \<Rightarrow> globals \<Rightarrow> syncWriter \<times> globals" where
  "NewSyncWriter s g =
     (let wr = SyncWriter s (length (allocated g))
      in (wr, g\<lparr>allocated := allocated g @ [wr]\<rparr>))"

text \<open>The function passed to \<open>initializeWritersOnce.Do\<close>.\<close>

definition initializeWriters :: "globals \<Rightarrow> globals" where
  "initializeWriters g =
     (let g1 = (if stdoutSyncWriter g = None
                then (let (wr, h) = NewSyncWriter Stdout g in h\<lparr>stdoutSyncWriter := Some wr\<rparr>)
                else g);
          g2 = (if stderrSyncWriter g1 = None
                then (let (wr, h) = NewSyncWriter Stderr g1 in h\<lparr>stderrSyncWriter := Some wr\<rparr>)
                else g1)
      in g2)"

text \<open>\<open>sync.Once.Do\<close>: the function runs if it has not run before, as one step.\<close>

definition onceDo :: "(globals \<Rightarrow> globals) \<Rightarrow> globals \<Rightarrow> globals" where
  "onceDo f g = (if initializeWritersOnce g then g else (f g)\<lparr>initializeWritersOnce := True\<rparr>)"

definition createSyncStdLoggers ::
  "(syncWriter option \<Rightarrow> appender) \<Rightarrow> globals \<Rightarrow> (appender \<times> appender) \<times> globals" where
  "createSyncStdLoggers loggerTypeFactory g =
     (let g1 = onceDo initializeWriters g
      in ((With (loggerTypeFactory (stdoutSyncWriter g1)) [Str ''ts'', DefaultTimestampUTC],
           With (loggerTypeFactory (stderrSyncWriter g1))
                [Str ''ts'', DefaultTimestampUTC, Str ''caller'', Caller 5]),
          g1))"

section \<open>The routing logger\<close>

text \<open>
  \<open>loggers\<close> is a Go map that may be \<open>nil\<close>; a key that is absent and a key bound to
  \<open>nil\<close> both read as \<open>None\<close>. \<open>counter\<close> is the handle of the counter, or \<open>nil\<close>.
\<close>

record multiAppenderInstrumentedLogger =
  loggers :: "(levelValue \<rightharpoonup> appender) option"
  counter :: "nat option"
  name :: string

text \<open>
  What \<open>Log\<close> does once it has found the level key paired with a level value:
  it increments the counter, if there is one, and hands the entry, with the logger's
  name appended, to the logger registered for that level, if there is one.
\<close>

definition deliver :: "multiAppenderInstrumentedLogger \<Rightarrow> val list \<Rightarrow> levelValue \<Rightarrow> world
                       \<Rightarrow> (panic + error option) \<times> world" where
  "deliver l keyvals lv w =
     (let w1 = (case counter l of None \<Rightarrow> w | Some c \<Rightarrow> Add c (String lv) w)
      in case loggers l of
           None \<Rightarrow> (Inr None, w1)
         | Some m \<Rightarrow>
             (case m lv of
                None \<Rightarrow> (Inr None, w1)
              | Some target \<Rightarrow>
                  appenderLog target (keyvals @ [Str ''logger'', Str (name l)]) w1))"

text \<open>
  The loop of \<open>Log\<close>. \<open>rest\<close> is \<open>keyvals[i:]\<close>; each turn looks at \<open>keyvals[i]\<close> and,
  when that is the level key, at \<open>keyvals[i+1]\<close>, which the source reads without
  comparing \<open>i+1\<close> with the length: with one element left the read panics. After the
  level key the loop ends (\<open>break\<close>), whatever the value was.
\<close>

fun route :: "multiAppenderInstrumentedLogger \<Rightarrow> val list \<Rightarrow> val list \<Rightarrow> world
               \<Rightarrow> (panic + error option) \<times> world" where
  "route l keyvals [] w = (Inr None, w)"
| "route l keyvals [k] w = (if k = Key then (Inl IndexOutOfRange, w) else (Inr None, w))"
| "route l keyvals (k # v # rest) w =
     (if k = Key then
        (case v of
           Lvl lv \<Rightarrow> deliver l keyvals lv w
         | _ \<Rightarrow> (Inr None, w))
      else route l keyvals rest w)"

definition Log :: "multiAppenderInstrumentedLogger \<Rightarrow> val list \<Rightarrow> world
                   \<Rightarrow> (panic + error option) \<times> world" where
  "Log l keyvals w = route l keyvals keyvals w"

text \<open>What \<open>CreateStdSyncLogger\<close> returns: the no-op logger of go-kit or a routing logger.\<close>

datatype Logger = NopLogger | Routing multiAppenderInstrumentedLogger

fun LoggerLog :: "Logger \<Rightarrow> val list \<Rightarrow> world \<Rightarrow> (panic + error option) \<times> world" where
  "LoggerLog NopLogger keyvals w = (Inr None, w)"
| "LoggerLog (Routing l) keyvals w = Log l keyvals w"

definition CreateStdSyncLogger ::
  "string \<Rightarrow> nat option \<Rightarrow> Config \<Rightarrow> globals \<Rightarrow> Logger \<times> globals" where
  "CreateStdSyncLogger loggerName cnt config g =
     (if isLevelNone (Level config) then (NopLogger, g)
      else
        (let lvl = getValidLevel (Level config);
             ((outLogger, errLogger), g1) =
                createSyncStdLoggers (createLoggerFactory (Format config)) g;
             outLogger1 = NewFilter outLogger lvl;
             m = [ErrorValue \<mapsto> errLogger, WarnValue \<mapsto> outLogger1,
                  InfoValue \<mapsto> outLogger1, DebugValue \<mapsto> outLogger1]
         in (Routing \<lparr>loggers = Some m, counter = cnt, name = loggerName\<rparr>, g1)))"

section \<open>Notions used by the properties\<close>

text \<open>
  The first level key on a key position (an even index) of an entry is at index \<open>i\<close>.
\<close>

definition levelKeyAt :: "val list \<Rightarrow> nat \<Rightarrow> bool" where
  "levelKeyAt kvs i =
     (even i \<and> i < length kvs \<and> kvs ! i = Key \<and> (\<forall>j<i. even j \<longrightarrow> kvs ! j \<noteq> Key))"

text \<open>No level value stands on a value position (an odd index) before index \<open>i\<close>.\<close>

definition noLevelBefore :: "val list \<Rightarrow> nat \<Rightarrow> bool" where
  "noLevelBefore kvs i = (\<forall>j<i. odd j \<longrightarrow> (\<forall>lv. kvs ! j \<noteq> Lvl lv))"

text \<open>The sink at the bottom of a logger, and the sink a routing logger uses for a level.\<close>

fun sinkOf :: "appender \<Rightarrow> syncWriter option" where
  "sinkOf (JSONLogger wr) = wr"
| "sinkOf (Context next pre) = sinkOf next"
| "sinkOf (Filter next allowed) = sinkOf next"

definition destinationSink :: "Logger \<Rightarrow> levelValue \<Rightarrow> syncWriter option" where
  "destinationSink lg lv =
     (case lg of
        NopLogger \<Rightarrow> None
      | Routing l \<Rightarrow>
          (case loggers l of
             None \<Rightarrow> None
           | Some m \<Rightarrow> (case m lv of None \<Rightarrow> None | Some a \<Rightarrow> sinkOf a)))"

fun streamOf :: "syncWriter \<Rightarrow> stream" where
  "streamOf (SyncWriter s i) = s"

text \<open>The sinks made so far for a stream.\<close>

definition sinksFor :: "stream \<Rightarrow> globals \<Rightarrow> syncWriter list" where
  "sinksFor s g = filter (\<lambda>wr. streamOf wr = s) (allocated g)"

text \<open>
  The package variables after a sequence of constructions, each given by its name,
  counter and configuration, in a process that starts with \<open>initialGlobals\<close>.
\<close>

definition construct :: "globals \<Rightarrow> string \<times> nat option \<times> Config \<Rightarrow> globals" where
  "construct g a = (case a of (n, c, config) \<Rightarrow> snd (CreateStdSyncLogger n c config g))"

definition after :: "(string \<times> nat option \<times> Config) list \<Rightarrow> globals" where
  "after cs = foldl construct initialGlobals cs"

text \<open>
  The key/value pairs that an encoder of go-kit reads from a record: the elements two by
  two, a last key without a value being paired with \<open>ErrMissingValue\<close>:
  \<^verbatim>\<open>
  for i := 0; i < len(keyvals); i += 2 {
      k := keyvals[i]
      var v interface{} = ErrMissingValue
      if i+1 < len(keyvals) {
          v = keyvals[i+1]
      }
      merge(m, k, v)
  }
  \<close>
\<close>

fun keyValuePairs :: "val list \<Rightarrow> (val \<times> val) list" where
  "keyValuePairs [] = []"
| "keyValuePairs [k] = [(k, ErrMissingValue)]"
| "keyValuePairs (k # v # rest) = (k, v) # keyValuePairs rest"

text \<open>A world in which nothing has happened yet and no write fails.\<close>

definition emptyWorld :: world where
  "emptyWorld = \<lparr>written = (\<lambda>s. []), counted = (\<lambda>c. []), wresult = (\<lambda>s n. None)\<rparr>"

text \<open>The same world, except that every write on the error stream fails.\<close>

definition brokenStderr :: world where
  "brokenStderr = emptyWorld\<lparr>wresult := (\<lambda>s n. if s = Stderr then Some (WriteError n) else None)\<rparr>"


section \<open>The loop of the routing logger\<close>

lemma shift_keys:
  assumes "\<forall>j<i. even j \<longrightarrow> (k # v # rest) ! j \<noteq> Key" "2 \<le> i"
  shows "\<forall>j<i - 2. even j \<longrightarrow> rest ! j \<noteq> Key"
proof (intro allI impI)
  fix j assume "j < i - 2" "even j"
  then have "Suc (Suc j) < i" "even (Suc (Suc j))" using assms(2) by auto
  with assms(1) have "(k # v # rest) ! Suc (Suc j) \<noteq> Key" by blast
  then show "rest ! j \<noteq> Key" by simp
qed

lemma route_no_key:
  "\<forall>i<length rest. even i \<longrightarrow> rest ! i \<noteq> Key \<Longrightarrow> route l kvs rest w = (Inr None, w)"
proof (induction l kvs rest w rule: route.induct)
  case (1 l keyvals w)
  then show ?case by simp
next
  case (2 l keyvals k w)
  then show ?case by auto
next
  case (3 l keyvals k v rest w)
  from 3(2) have k: "k \<noteq> Key" by auto
  have "\<forall>i<length rest. even i \<longrightarrow> rest ! i \<noteq> Key"
  proof (intro allI impI)
    fix i assume "i < length rest" "even i"
    then have "Suc (Suc i) < length (k # v # rest)" "even (Suc (Suc i))" by auto
    with 3(2) have "(k # v # rest) ! Suc (Suc i) \<noteq> Key" by blast
    then show "rest ! i \<noteq> Key" by simp
  qed
  with 3(1) k show ?case by simp
qed

lemma levelKeyAt_Cons2:
  assumes "levelKeyAt (k # v # rest) i" "k \<noteq> Key"
  shows "2 \<le> i \<and> levelKeyAt rest (i - 2)"
proof -
  from assms have i0: "i \<noteq> 0" by (cases i) (simp_all add: levelKeyAt_def)
  from assms(1) have ev: "even i" by (simp add: levelKeyAt_def)
  with i0 have i2: "2 \<le> i" by presburger
  then obtain m where m: "i = Suc (Suc m)" by (metis Suc_le_D numeral_2_eq_2 Suc_le_mono)
  from assms(1) have a: "i < length (k # v # rest)" "(k # v # rest) ! i = Key"
      "\<forall>j<i. even j \<longrightarrow> (k # v # rest) ! j \<noteq> Key"
    by (simp_all add: levelKeyAt_def)
  have "\<forall>j<i - 2. even j \<longrightarrow> rest ! j \<noteq> Key" using shift_keys[OF a(3) i2] .
  with a ev m i2 show ?thesis by (simp add: levelKeyAt_def)
qed

lemma levelKeyAt_Key_0: "levelKeyAt (Key # rest) i \<Longrightarrow> i = 0"
  by (cases i) (auto simp: levelKeyAt_def)

lemma route_at:
  "levelKeyAt rest i \<Longrightarrow> Suc i < length rest \<Longrightarrow>
   route l kvs rest w =
     (case rest ! Suc i of Lvl lv \<Rightarrow> deliver l kvs lv w | _ \<Rightarrow> (Inr None, w))"
proof (induction l kvs rest w arbitrary: i rule: route.induct)
  case (1 l keyvals w)
  then show ?case by simp
next
  case (2 l keyvals k w)
  then show ?case by (simp add: levelKeyAt_def)
next
  case (3 l keyvals k v rest w)
  show ?case
  proof (cases "k = Key")
    case True
    with 3(2) have "i = 0" using levelKeyAt_Key_0 by blast
    with True show ?thesis by simp
  next
    case False
    from levelKeyAt_Cons2[OF 3(2) False] have i2: "2 \<le> i" and at: "levelKeyAt rest (i - 2)"
      by simp_all
    from i2 obtain m where m: "i = Suc (Suc m)" by (metis Suc_le_D numeral_2_eq_2 Suc_le_mono)
    from 3(3) m have len: "Suc m < length rest" by simp
    from at m have at': "levelKeyAt rest m" by simp
    from 3(1)[OF False at' len] False m show ?thesis by simp
  qed
qed

text \<open>A level key that is the last element of the entry: the read of its value panics.\<close>

lemma route_dangling:
  "levelKeyAt rest i \<Longrightarrow> Suc i = length rest \<Longrightarrow> route l kvs rest w = (Inl IndexOutOfRange, w)"
proof (induction l kvs rest w arbitrary: i rule: route.induct)
  case (1 l keyvals w)
  then show ?case by simp
next
  case (2 l keyvals k w)
  then show ?case by (cases i) (simp_all add: levelKeyAt_def)
next
  case (3 l keyvals k v rest w)
  show ?case
  proof (cases "k = Key")
    case True
    with 3(2) have "i = 0" using levelKeyAt_Key_0 by blast
    with 3(3) show ?thesis by simp
  next
    case False
    from levelKeyAt_Cons2[OF 3(2) False] have i2: "2 \<le> i" and at: "levelKeyAt rest (i - 2)"
      by simp_all
    from i2 obtain m where m: "i = Suc (Suc m)" by (metis Suc_le_D numeral_2_eq_2 Suc_le_mono)
    from 3(3) m have len: "Suc m = length rest" by simp
    from at m have at': "levelKeyAt rest m" by simp
    from 3(1)[OF False at' len] False show ?thesis by simp
  qed
qed

lemma firstLevel_at:
  "even i \<Longrightarrow> Suc i < length kvs \<Longrightarrow> kvs ! Suc i = Lvl S \<Longrightarrow> noLevelBefore kvs i \<Longrightarrow>
   firstLevel (kvs @ extra) = Some S"
proof (induction kvs arbitrary: i rule: firstLevel.induct)
  case 1
  then show ?case by simp
next
  case (2 k)
  then show ?case by simp
next
  case (3 k v rest)
  note ev = "3.prems"(1) and len = "3.prems"(2) and at = "3.prems"(3) and nb = "3.prems"(4)
  show ?case
  proof (cases i)
    case 0
    with at have "v = Lvl S" by simp
    then show ?thesis by simp
  next
    case (Suc n)
    with ev obtain m where m: "i = Suc (Suc m)" by (cases n) auto
    have "Suc 0 < i" "odd (Suc 0)" using m by simp_all
    with nb have "\<forall>lv. (k # v # rest) ! Suc 0 \<noteq> Lvl lv"
      unfolding noLevelBefore_def by blast
    then have v: "\<forall>lv. v \<noteq> Lvl lv" by simp
    have nb': "noLevelBefore rest m"
      unfolding noLevelBefore_def
    proof (intro allI impI)
      fix j lv assume "j < m" "odd j"
      then have "Suc (Suc j) < i" "odd (Suc (Suc j))" using m by auto
      with nb have "(k # v # rest) ! Suc (Suc j) \<noteq> Lvl lv" unfolding noLevelBefore_def by blast
      then show "rest ! j \<noteq> Lvl lv" by simp
    qed
    from ev m have ev': "even m" by simp
    from len m have len': "Suc m < length rest" by simp
    from at m have at': "rest ! Suc m = Lvl S" by simp
    have ih: "firstLevel (rest @ extra) = Some S"
      using "3.IH" v ev' len' at' nb' by (cases v) auto
    with v show ?thesis by (cases v) auto
  qed
qed

lemma appenderLog_counted: "counted (snd (appenderLog a kvs w)) = counted w"
  by (induction a kvs w rule: appenderLog.induct) (auto split: option.splits)

section \<open>Construction and the shared writers\<close>

lemma onceDo_initial:
  "onceDo initializeWriters initialGlobals =
     \<lparr>stdoutSyncWriter = Some (SyncWriter Stdout 0), stderrSyncWriter = Some (SyncWriter Stderr 1),
      initializeWritersOnce = True, allocated = [SyncWriter Stdout 0, SyncWriter Stderr 1]\<rparr>"
  by (simp add: onceDo_def initializeWriters_def initialGlobals_def NewSyncWriter_def Let_def)

lemma onceDo_done: "initializeWritersOnce g \<Longrightarrow> onceDo f g = g"
  by (simp add: onceDo_def)

lemma CreateStdSyncLogger_eq:
  "CreateStdSyncLogger n c config g =
     (if isLevelNone (Level config) then (NopLogger, g)
      else (Routing \<lparr>loggers = Some
              [ErrorValue \<mapsto> Context (JSONLogger (stderrSyncWriter (onceDo initializeWriters g)))
                                     [Str ''ts'', DefaultTimestampUTC, Str ''caller'', Caller 5],
               WarnValue \<mapsto> Filter (Context (JSONLogger (stdoutSyncWriter (onceDo initializeWriters g)))
                                     [Str ''ts'', DefaultTimestampUTC]) (getValidLevel (Level config)),
               InfoValue \<mapsto> Filter (Context (JSONLogger (stdoutSyncWriter (onceDo initializeWriters g)))
                                     [Str ''ts'', DefaultTimestampUTC]) (getValidLevel (Level config)),
               DebugValue \<mapsto> Filter (Context (JSONLogger (stdoutSyncWriter (onceDo initializeWriters g)))
                                     [Str ''ts'', DefaultTimestampUTC]) (getValidLevel (Level config))],
              counter = c, name = n\<rparr>,
            onceDo initializeWriters g))"
  by (simp add: CreateStdSyncLogger_def createSyncStdLoggers_def createLoggerFactory_def
      NewJSONLogger_def NewFilter_def padMissing_def Let_def)

lemma construct_cases:
  "construct g a = g \<or> construct g a = onceDo initializeWriters g"
  by (cases a) (simp add: construct_def CreateStdSyncLogger_eq)

lemma after_snoc: "after (cs @ [a]) = construct (after cs) a"
  by (simp add: after_def)

lemma after_cases:
  "after cs = initialGlobals \<or> after cs = onceDo initializeWriters initialGlobals"
proof (induction cs rule: rev_induct)
  case Nil
  then show ?case by (simp add: after_def)
next
  case (snoc a cs)
  have idem: "onceDo initializeWriters (onceDo initializeWriters initialGlobals)
              = onceDo initializeWriters initialGlobals"
    by (rule onceDo_done) (simp add: onceDo_initial)
  from snoc construct_cases[of "after cs" a] idem show ?case
    by (auto simp: after_snoc)
qed

lemma onceDo_after:
  "onceDo initializeWriters (after cs) = onceDo initializeWriters initialGlobals"
proof -
  have "onceDo initializeWriters (onceDo initializeWriters initialGlobals)
              = onceDo initializeWriters initialGlobals"
    by (rule onceDo_done) (simp add: onceDo_initial)
  with after_cases[of cs] show ?thesis by auto
qed

lemma level_string:
  assumes "ToLower (TrimSpace l) = String L"
  shows "\<not> isLevelNone l" and "getValidLevel l = {v. rank L \<le> rank v}"
proof -
  show "\<not> isLevelNone l" using assms by (cases L) (simp_all add: isLevelNone_def)
  show "getValidLevel l = {v. rank L \<le> rank v}"
  proof (rule set_eqI)
    fix v show "v \<in> getValidLevel l \<longleftrightarrow> v \<in> {v. rank L \<le> rank v}"
      using assms by (cases L; cases v)
        (simp_all add: getValidLevel_def AllowError_def AllowWarn_def AllowInfo_def AllowDebug_def)
  qed
qed

lemma Log_at:
  "levelKeyAt kvs i \<Longrightarrow> Suc i < length kvs \<Longrightarrow> kvs ! Suc i = Lvl S \<Longrightarrow>
   Log l kvs w = deliver l kvs S w"
  by (simp add: Log_def route_at)

lemma written_Add: "written (Add c s w) = written w"
  by (simp add: Add_def)

section \<open>Properties of the package\<close>

lemma lower_none: "ToLower (TrimSpace ''  NoNe '') = ''none''"
  by code_simp
lemma lower_debug: "ToLower (TrimSpace ''debug'') = ''debug''"
  by code_simp
lemma lower_garbage: "ToLower (TrimSpace ''invalid-garbage'') = ''invalid-garbage''"
  by code_simp
lemma lower_warn: "ToLower (TrimSpace '' WARN'') = ''warn''"
  by code_simp
lemma lower_error: "ToLower (TrimSpace ''error'') = ''error''"
  by code_simp
lemma lower_info: "ToLower (TrimSpace ''info'') = ''info''"
  by code_simp

lemma isLevelNone_error: "\<not> isLevelNone ''error''"
  by (simp add: isLevelNone_def lower_error)
lemma isLevelNone_warn: "\<not> isLevelNone '' WARN''"
  by (simp add: isLevelNone_def lower_warn)
lemma isLevelNone_info: "\<not> isLevelNone ''info''"
  by (simp add: isLevelNone_def lower_info)

lemma keyValuePairs_append:
  "even (length xs) \<Longrightarrow> keyValuePairs (xs @ ys) = keyValuePairs xs @ keyValuePairs ys"
  by (induction xs rule: keyValuePairs.induct) simp_all

text \<open>
  C2. An entry that has no level key on a key position, or whose first level key is paired
  with a value that is not a level value, is dropped: \<open>Log\<close> returns \<open>nil\<close> and the
  world is unchanged, so that nothing is written to either stream and no counter is
  incremented. This holds for every routing logger, whatever its map and counter.
\<close>

theorem Log_drops_entry_without_severity:
  assumes "(\<forall>i<length kvs. even i \<longrightarrow> kvs ! i \<noteq> Key)
           \<or> (\<exists>i. levelKeyAt kvs i \<and> Suc i < length kvs \<and> (\<forall>lv. kvs ! Suc i \<noteq> Lvl lv))"
  shows "Log l kvs w = (Inr None, w)"
  using assms
proof
  assume "\<forall>i<length kvs. even i \<longrightarrow> kvs ! i \<noteq> Key"
  then show ?thesis by (simp add: Log_def route_no_key)
next
  assume "\<exists>i. levelKeyAt kvs i \<and> Suc i < length kvs \<and> (\<forall>lv. kvs ! Suc i \<noteq> Lvl lv)"
  then obtain i where i: "levelKeyAt kvs i" "Suc i < length kvs" "\<forall>lv. kvs ! Suc i \<noteq> Lvl lv"
    by blast
  from route_at[OF i(1,2)] i(3) show ?thesis
    by (cases "kvs ! Suc i") (simp_all add: Log_def)
qed

theorem Log_drops_entry_without_severity_witness:
  "Log \<lparr>loggers = Some [InfoValue \<mapsto> JSONLogger (Some (SyncWriter Stdout 0))],
        counter = Some 0, name = ''fake''\<rparr> [Str ''key'', Str ''value''] emptyWorld = (Inr None, emptyWorld)
   \<and> Log \<lparr>loggers = Some [InfoValue \<mapsto> JSONLogger (Some (SyncWriter Stdout 0))],
        counter = Some 0, name = ''fake''\<rparr> [Str ''level'', Other 7, Str ''key'', Str ''value''] emptyWorld
      = (Inr None, emptyWorld)"
proof -
  have a: "(\<forall>i<length [Str ''key'', Str ''value'']. even i \<longrightarrow> [Str ''key'', Str ''value''] ! i \<noteq> Key)
           \<or> (\<exists>i. levelKeyAt [Str ''key'', Str ''value''] i \<and> Suc i < length [Str ''key'', Str ''value'']
                \<and> (\<forall>lv. [Str ''key'', Str ''value''] ! Suc i \<noteq> Lvl lv))"
    by (simp add: Key_def less_Suc_eq)
  have "levelKeyAt [Str ''level'', Other 7, Str ''key'', Str ''value''] 0"
    by (simp add: levelKeyAt_def Key_def)
  then have b: "(\<forall>i<length [Str ''level'', Other 7, Str ''key'', Str ''value'']. even i
              \<longrightarrow> [Str ''level'', Other 7, Str ''key'', Str ''value''] ! i \<noteq> Key)
           \<or> (\<exists>i. levelKeyAt [Str ''level'', Other 7, Str ''key'', Str ''value''] i
                \<and> Suc i < length [Str ''level'', Other 7, Str ''key'', Str ''value'']
                \<and> (\<forall>lv. [Str ''level'', Other 7, Str ''key'', Str ''value''] ! Suc i \<noteq> Lvl lv))"
    by (intro disjI2 exI[of _ 0]) simp
  show ?thesis
    using Log_drops_entry_without_severity[OF a] Log_drops_entry_without_severity[OF b] by simp
qed

text \<open>
  C3. \<open>Log\<close> is claimed never to panic. The source reads \<open>keyvals[i+1]\<close> as soon as
  \<open>keyvals[i]\<close> is the level key; when the level key is the last element of a sequence of
  odd length that read is out of range and \<open>Log\<close> panics, for every routing logger and
  for the logger that \<open>CreateStdSyncLogger\<close> returns for the default configuration.
\<close>

theorem Log_panics_on_trailing_level_key:
  "Log l [Str ''level''] w = (Inl IndexOutOfRange, w)
   \<and> fst (LoggerLog (fst (CreateStdSyncLogger ''fake'' None Configuration initialGlobals))
             [Str ''key'', Str ''value'', Str ''level''] emptyWorld) = Inl IndexOutOfRange"
proof -
  have "\<not> isLevelNone (Level Configuration)"
    by (simp add: Configuration_def isLevelNone_def lower_info)
  then show ?thesis
    by (simp add: Log_def Key_def CreateStdSyncLogger_eq)
qed

text \<open>
  C4. When the level string of the configuration is \<open>none\<close> after trimming and lowering,
  \<open>CreateStdSyncLogger\<close> returns the no-op logger and leaves the package variables as
  they were (no writer is made); \<open>Log\<close> of that logger returns \<open>nil\<close> and leaves the
  world unchanged for every entry.
\<close>

theorem level_none_gives_nop_logger:
  assumes "ToLower (TrimSpace (Level config)) = ''none''"
  shows "CreateStdSyncLogger n c config g = (NopLogger, g)
         \<and> LoggerLog (fst (CreateStdSyncLogger n c config g)) kvs w = (Inr None, w)"
  using assms by (simp add: CreateStdSyncLogger_def isLevelNone_def)

theorem level_none_gives_nop_logger_witness:
  "ToLower (TrimSpace (Level \<lparr>Format = ''json'', Level = ''  NoNe ''\<rparr>)) = ''none''
   \<and> CreateStdSyncLogger ''fake'' (Some 0) \<lparr>Format = ''json'', Level = ''  NoNe ''\<rparr> initialGlobals
       = (NopLogger, initialGlobals)
   \<and> LoggerLog (fst (CreateStdSyncLogger ''fake'' (Some 0) \<lparr>Format = ''json'', Level = ''  NoNe ''\<rparr>
        initialGlobals)) [Str ''level'', Lvl ErrorValue, Str ''key'', Str ''value''] emptyWorld
       = (Inr None, emptyWorld)"
proof -
  have h: "ToLower (TrimSpace (Level \<lparr>Format = ''json'', Level = ''  NoNe ''\<rparr>)) = ''none''"
    by (simp add: lower_none)
  from level_none_gives_nop_logger[OF h] h show ?thesis by blast
qed

text \<open>
  C5. A level string that is, after trimming and lowering, none of \<open>none\<close>, \<open>error\<close>,
  \<open>warn\<close>, \<open>info\<close>, \<open>debug\<close> resolves to \<open>AllowAll\<close>, and the construction with that
  string gives the same logger and the same package variables as the construction with
  \<open>debug\<close>; the two loggers therefore behave alike on every entry.
\<close>

theorem unrecognized_level_allows_all:
  assumes "ToLower (TrimSpace s) \<notin> {''none'', ''error'', ''warn'', ''info'', ''debug''}"
  shows "getValidLevel s = AllowAll
         \<and> CreateStdSyncLogger n c (config\<lparr>Level := s\<rparr>) g
             = CreateStdSyncLogger n c (config\<lparr>Level := ''debug''\<rparr>) g
         \<and> LoggerLog (fst (CreateStdSyncLogger n c (config\<lparr>Level := s\<rparr>) g)) kvs w
             = LoggerLog (fst (CreateStdSyncLogger n c (config\<lparr>Level := ''debug''\<rparr>) g)) kvs w"
proof -
  from assms have a: "getValidLevel s = AllowAll" by (simp add: getValidLevel_def)
  have d: "getValidLevel ''debug'' = AllowAll"
    by (simp add: getValidLevel_def lower_debug AllowAll_def)
  from assms have n: "\<not> isLevelNone s" by (auto simp: isLevelNone_def)
  have nd: "\<not> isLevelNone ''debug''" by (simp add: isLevelNone_def lower_debug)
  have "CreateStdSyncLogger n c (config\<lparr>Level := s\<rparr>) g
             = CreateStdSyncLogger n c (config\<lparr>Level := ''debug''\<rparr>) g"
    by (simp add: CreateStdSyncLogger_def a d n nd)
  with a show ?thesis by simp
qed

theorem unrecognized_level_allows_all_witness:
  "ToLower (TrimSpace ''invalid-garbage'') \<notin> {''none'', ''error'', ''warn'', ''info'', ''debug''}
   \<and> getValidLevel ''invalid-garbage'' = AllowAll
   \<and> CreateStdSyncLogger ''fake'' None (Configuration\<lparr>Level := ''invalid-garbage''\<rparr>) initialGlobals
        = CreateStdSyncLogger ''fake'' None (Configuration\<lparr>Level := ''debug''\<rparr>) initialGlobals"
proof -
  have h: "ToLower (TrimSpace ''invalid-garbage'') \<notin> {''none'', ''error'', ''warn'', ''info'', ''debug''}"
    by (simp add: lower_garbage)
  from unrecognized_level_allows_all[OF h] h show ?thesis by blast
qed

text \<open>
  C9. The format string is not looked at: \<open>createLoggerFactory\<close> returns the JSON
  factory for every string, and two configurations that differ in the format only give
  the same logger and the same package variables.
\<close>

theorem format_is_ignored:
  "createLoggerFactory f1 = NewJSONLogger
   \<and> createLoggerFactory f1 = createLoggerFactory f2
   \<and> CreateStdSyncLogger n c (config\<lparr>Format := f1\<rparr>) g
       = CreateStdSyncLogger n c (config\<lparr>Format := f2\<rparr>) g"
  by (simp add: createLoggerFactory_def CreateStdSyncLogger_def)

text \<open>
  C6. For an entry whose first level key is paired with the level value \<open>S\<close>, a routing
  logger with a counter increments that counter exactly once, with the label
  \<open>String S\<close>, and touches no other counter. When no logger is registered for \<open>S\<close>
  (a \<open>nil\<close> map or no binding) that increment is all that happens.
\<close>

theorem counter_incremented_once:
  assumes "counter l = Some c"
      and "levelKeyAt kvs i" and "Suc i < length kvs" and "kvs ! Suc i = Lvl S"
  shows "counted (snd (Log l kvs w)) = (counted w)(c := counted w c @ [String S])
         \<and> ((loggers l = None \<or> (\<exists>m. loggers l = Some m \<and> m S = None))
              \<longrightarrow> Log l kvs w = (Inr None, Add c (String S) w))"
proof -
  have L: "Log l kvs w = deliver l kvs S w" using assms(2-4) by (rule Log_at)
  have "counted (snd (deliver l kvs S w)) = counted (Add c (String S) w)"
    using assms(1) by (auto simp: deliver_def Let_def appenderLog_counted split: option.splits)
  then have 1: "counted (snd (Log l kvs w)) = (counted w)(c := counted w c @ [String S])"
    by (simp add: L Add_def)
  have 2: "(loggers l = None \<or> (\<exists>m. loggers l = Some m \<and> m S = None))
              \<longrightarrow> Log l kvs w = (Inr None, Add c (String S) w)"
    using assms(1) by (auto simp: L deliver_def Let_def)
  from 1 2 show ?thesis by blast
qed

theorem counter_incremented_once_witness:
  "counted (snd (Log \<lparr>loggers = Some Map.empty, counter = Some 0, name = ''fake''\<rparr>
                    [Str ''level'', Lvl InfoValue, Str ''key'', Str ''value''] emptyWorld)) 0 = [''info'']
   \<and> Log \<lparr>loggers = Some Map.empty, counter = Some 0, name = ''fake''\<rparr>
          [Str ''level'', Lvl InfoValue, Str ''key'', Str ''value''] emptyWorld
       = (Inr None, Add 0 ''info'' emptyWorld)"
proof -
  have k: "levelKeyAt [Str ''level'', Lvl InfoValue, Str ''key'', Str ''value''] 0"
    by (simp add: levelKeyAt_def Key_def)
  have c: "counter \<lparr>loggers = Some Map.empty, counter = Some 0, name = ''fake''\<rparr> = Some 0"
    by simp
  from counter_incremented_once[OF c k, of InfoValue emptyWorld] show ?thesis
    by (simp add: emptyWorld_def Add_def)
qed

text \<open>
  C7, amended. When a logger is registered for the level of the entry, \<open>Log\<close> hands it
  the caller's elements followed by the two elements \<open>"logger"\<close> and the name, and returns
  what that logger returns, for an entry of any length. When the entry has even length,
  those two elements are one further key/value pair, \<open>("logger", name)\<close>, behind all the
  pairs of the caller.
\<close>

theorem routed_entry_gains_logger_name:
  assumes "levelKeyAt kvs i" and "Suc i < length kvs" and "kvs ! Suc i = Lvl S"
      and "loggers l = Some m" and "m S = Some target"
  shows "Log l kvs w =
           appenderLog target (kvs @ [Str ''logger'', Str (name l)])
             (case counter l of None \<Rightarrow> w | Some c \<Rightarrow> Add c (String S) w)
         \<and> (even (length kvs) \<longrightarrow>
               keyValuePairs (kvs @ [Str ''logger'', Str (name l)])
                 = keyValuePairs kvs @ [(Str ''logger'', Str (name l))])"
proof -
  have "Log l kvs w =
           appenderLog target (kvs @ [Str ''logger'', Str (name l)])
             (case counter l of None \<Rightarrow> w | Some c \<Rightarrow> Add c (String S) w)"
    using assms(4,5) by (simp add: Log_at[OF assms(1-3)] deliver_def Let_def)
  moreover have "even (length kvs) \<longrightarrow>
               keyValuePairs (kvs @ [Str ''logger'', Str (name l)])
                 = keyValuePairs kvs @ [(Str ''logger'', Str (name l))]"
    by (simp add: keyValuePairs_append)
  ultimately show ?thesis by blast
qed

text \<open>
  As the claim is stated, for every routed entry, it fails on an entry of odd length: the
  source appends the two elements whatever the length is. For the entry of three elements
  below, routed to the error stream by the logger of the default configuration, the record
  handed to the encoder pairs \<open>"x"\<close> with \<open>"logger"\<close> and the name with
  \<open>ErrMissingValue\<close>; it has no pair \<open>("logger", name)\<close>.
\<close>

theorem routed_entry_gains_logger_name_counterexample:
  "levelKeyAt [Str ''level'', Lvl ErrorValue, Str ''x''] 0
   \<and> written (snd (LoggerLog
          (fst (CreateStdSyncLogger ''fake'' None Configuration initialGlobals))
          [Str ''level'', Lvl ErrorValue, Str ''x''] emptyWorld)) Stderr
       = [[Str ''ts'', DefaultTimestampUTC, Str ''caller'', Caller 5,
           Str ''level'', Lvl ErrorValue, Str ''x'', Str ''logger'', Str ''fake'', ErrMissingValue]]
   \<and> keyValuePairs [Str ''ts'', DefaultTimestampUTC, Str ''caller'', Caller 5,
           Str ''level'', Lvl ErrorValue, Str ''x'', Str ''logger'', Str ''fake'', ErrMissingValue]
       = [(Str ''ts'', DefaultTimestampUTC), (Str ''caller'', Caller 5),
          (Str ''level'', Lvl ErrorValue), (Str ''x'', Str ''logger''),
          (Str ''fake'', ErrMissingValue)]
   \<and> (Str ''logger'', Str ''fake'')
         \<notin> set (keyValuePairs ([Str ''level'', Lvl ErrorValue, Str ''x'']
                                   @ [Str ''logger'', Str ''fake'']))"
proof -
  have k: "levelKeyAt [Str ''level'', Lvl ErrorValue, Str ''x''] 0"
    by (simp add: levelKeyAt_def Key_def)
  have n: "\<not> isLevelNone (Level Configuration)"
    by (simp add: Configuration_def isLevelNone_info)
  have w: "written (snd (LoggerLog
          (fst (CreateStdSyncLogger ''fake'' None Configuration initialGlobals))
          [Str ''level'', Lvl ErrorValue, Str ''x''] emptyWorld)) Stderr
       = [[Str ''ts'', DefaultTimestampUTC, Str ''caller'', Caller 5,
           Str ''level'', Lvl ErrorValue, Str ''x'', Str ''logger'', Str ''fake'', ErrMissingValue]]"
    using n by (simp add: CreateStdSyncLogger_eq onceDo_initial Log_def Key_def deliver_def Let_def
        emptyWorld_def padMissing_def)
  from k w show ?thesis by simp
qed

text \<open>
  An entry of even length routed to a logger whose write fails: the error comes back as
  it is, and the record ends with the pair of the name.
\<close>

theorem routed_entry_gains_logger_name_witness:
  "Log \<lparr>loggers = Some [ErrorValue \<mapsto> JSONLogger (Some (SyncWriter Stderr 1))],
        counter = None, name = ''fake''\<rparr> [Str ''level'', Lvl ErrorValue, Str ''key'', Str ''value'']
       brokenStderr
   = (Inr (Some (WriteError 0)),
      brokenStderr\<lparr>written := (written brokenStderr)
         (Stderr := [[Str ''level'', Lvl ErrorValue, Str ''key'', Str ''value'',
                      Str ''logger'', Str ''fake'']])\<rparr>)
   \<and> even (length [Str ''level'', Lvl ErrorValue, Str ''key'', Str ''value''])
   \<and> keyValuePairs ([Str ''level'', Lvl ErrorValue, Str ''key'', Str ''value'']
                     @ [Str ''logger'', Str ''fake''])
       = [(Str ''level'', Lvl ErrorValue), (Str ''key'', Str ''value''),
          (Str ''logger'', Str ''fake'')]"
proof -
  have k: "levelKeyAt [Str ''level'', Lvl ErrorValue, Str ''key'', Str ''value''] 0"
    by (simp add: levelKeyAt_def Key_def)
  have m: "loggers \<lparr>loggers = Some [ErrorValue \<mapsto> JSONLogger (Some (SyncWriter Stderr 1))],
        counter = None, name = ''fake''\<rparr> = Some [ErrorValue \<mapsto> JSONLogger (Some (SyncWriter Stderr 1))]"
    by simp
  have t: "[ErrorValue \<mapsto> JSONLogger (Some (SyncWriter Stderr 1))] ErrorValue
            = Some (JSONLogger (Some (SyncWriter Stderr 1)))"
    by simp
  from routed_entry_gains_logger_name[OF k _ _ m t, of brokenStderr] show ?thesis
    by (simp add: brokenStderr_def emptyWorld_def)
qed

lemma after_explicit:
  "after cs = initialGlobals \<or>
   after cs = \<lparr>stdoutSyncWriter = Some (SyncWriter Stdout 0), stderrSyncWriter = Some (SyncWriter Stderr 1),
      initializeWritersOnce = True, allocated = [SyncWriter Stdout 0, SyncWriter Stderr 1]\<rparr>"
  using after_cases[of cs] by (simp add: onceDo_initial)

lemma construct_initialized:
  assumes "initializeWritersOnce g"
  shows "construct g a = g"
  using construct_cases[of g a] assms by (auto simp: onceDo_done)

lemma destinationSink_created:
  assumes "fst (CreateStdSyncLogger n c config (after cs)) \<noteq> NopLogger"
  shows "destinationSink (fst (CreateStdSyncLogger n c config (after cs))) lv
           = Some (if lv = ErrorValue then SyncWriter Stderr 1 else SyncWriter Stdout 0)"
proof -
  from assms have "\<not> isLevelNone (Level config)"
    by (auto simp: CreateStdSyncLogger_eq)
  then show ?thesis
    by (cases lv) (simp_all add: CreateStdSyncLogger_eq destinationSink_def onceDo_after onceDo_initial)
qed

text \<open>
  C8. After any sequence of constructions at most one sink has been made for each
  stream, and the package variable of a stream holds exactly the sinks made for it; once a
  variable is set, a further construction neither changes it nor makes another sink for its
  stream; and any two constructions that return a routing logger bind each level to the same
  sink. (\<open>sync.Once\<close> is taken as running its function in one step.)
\<close>

theorem shared_writers_created_once:
  "length (sinksFor Stdout (after cs)) \<le> 1 \<and> length (sinksFor Stderr (after cs)) \<le> 1
   \<and> set_option (stdoutSyncWriter (after cs)) = set (sinksFor Stdout (after cs))
   \<and> set_option (stderrSyncWriter (after cs)) = set (sinksFor Stderr (after cs))
   \<and> (stdoutSyncWriter (after cs) \<noteq> None \<longrightarrow>
        stdoutSyncWriter (after (cs @ [a])) = stdoutSyncWriter (after cs)
        \<and> sinksFor Stdout (after (cs @ [a])) = sinksFor Stdout (after cs))
   \<and> (stderrSyncWriter (after cs) \<noteq> None \<longrightarrow>
        stderrSyncWriter (after (cs @ [a])) = stderrSyncWriter (after cs)
        \<and> sinksFor Stderr (after (cs @ [a])) = sinksFor Stderr (after cs))
   \<and> (fst (CreateStdSyncLogger n1 c1 config1 (after cs1)) \<noteq> NopLogger
        \<and> fst (CreateStdSyncLogger n2 c2 config2 (after cs2)) \<noteq> NopLogger \<longrightarrow>
        destinationSink (fst (CreateStdSyncLogger n1 c1 config1 (after cs1))) lv
          = destinationSink (fst (CreateStdSyncLogger n2 c2 config2 (after cs2))) lv
        \<and> destinationSink (fst (CreateStdSyncLogger n1 c1 config1 (after cs1))) lv \<noteq> None)"
proof -
  have 1: "length (sinksFor Stdout (after cs)) \<le> 1 \<and> length (sinksFor Stderr (after cs)) \<le> 1
   \<and> set_option (stdoutSyncWriter (after cs)) = set (sinksFor Stdout (after cs))
   \<and> set_option (stderrSyncWriter (after cs)) = set (sinksFor Stderr (after cs))"
    using after_explicit[of cs] by (auto simp: sinksFor_def initialGlobals_def)
  have init: "stdoutSyncWriter (after cs) \<noteq> None \<or> stderrSyncWriter (after cs) \<noteq> None
              \<Longrightarrow> initializeWritersOnce (after cs)"
    using after_explicit[of cs] by (auto simp: initialGlobals_def)
  have 2: "stdoutSyncWriter (after cs) \<noteq> None \<longrightarrow>
        stdoutSyncWriter (after (cs @ [a])) = stdoutSyncWriter (after cs)
        \<and> sinksFor Stdout (after (cs @ [a])) = sinksFor Stdout (after cs)"
    using init by (auto simp: after_snoc construct_initialized)
  have 3: "stderrSyncWriter (after cs) \<noteq> None \<longrightarrow>
        stderrSyncWriter (after (cs @ [a])) = stderrSyncWriter (after cs)
        \<and> sinksFor Stderr (after (cs @ [a])) = sinksFor Stderr (after cs)"
    using init by (auto simp: after_snoc construct_initialized)
  have 4: "fst (CreateStdSyncLogger n1 c1 config1 (after cs1)) \<noteq> NopLogger
        \<and> fst (CreateStdSyncLogger n2 c2 config2 (after cs2)) \<noteq> NopLogger \<longrightarrow>
        destinationSink (fst (CreateStdSyncLogger n1 c1 config1 (after cs1))) lv
          = destinationSink (fst (CreateStdSyncLogger n2 c2 config2 (after cs2))) lv
        \<and> destinationSink (fst (CreateStdSyncLogger n1 c1 config1 (after cs1))) lv \<noteq> None"
    by (simp add: destinationSink_created)
  from 1 2 3 4 show ?thesis by blast
qed


theorem shared_writers_created_once_witness:
  "stdoutSyncWriter (after [(''a'', None, Configuration)]) \<noteq> None
   \<and> stderrSyncWriter (after [(''a'', None, Configuration)]) \<noteq> None
   \<and> stdoutSyncWriter (after ([(''a'', None, Configuration)] @ [(''b'', Some 0, \<lparr>Format = ''text'', Level = ''error''\<rparr>)]))
       = stdoutSyncWriter (after [(''a'', None, Configuration)])
   \<and> sinksFor Stderr (after ([(''a'', None, Configuration)] @ [(''b'', Some 0, \<lparr>Format = ''text'', Level = ''error''\<rparr>)]))
       = sinksFor Stderr (after [(''a'', None, Configuration)])
   \<and> fst (CreateStdSyncLogger ''a'' None Configuration (after [])) \<noteq> NopLogger
   \<and> fst (CreateStdSyncLogger ''b'' (Some 0) \<lparr>Format = ''text'', Level = ''error''\<rparr> (after [(''a'', None, Configuration)])) \<noteq> NopLogger
   \<and> destinationSink (fst (CreateStdSyncLogger ''a'' None Configuration (after []))) WarnValue
       = destinationSink (fst (CreateStdSyncLogger ''b'' (Some 0) \<lparr>Format = ''text'', Level = ''error''\<rparr>
            (after [(''a'', None, Configuration)]))) WarnValue"
proof -
  have a: "after [(''a'', None, Configuration)] =
       \<lparr>stdoutSyncWriter = Some (SyncWriter Stdout 0), stderrSyncWriter = Some (SyncWriter Stderr 1),
      initializeWritersOnce = True, allocated = [SyncWriter Stdout 0, SyncWriter Stderr 1]\<rparr>"
    by (simp add: after_def construct_def CreateStdSyncLogger_eq Configuration_def isLevelNone_info
        onceDo_initial)
  have b: "fst (CreateStdSyncLogger ''a'' None Configuration (after [])) \<noteq> NopLogger"
    by (simp add: CreateStdSyncLogger_eq Configuration_def isLevelNone_info)
  have c: "fst (CreateStdSyncLogger ''b'' (Some 0) \<lparr>Format = ''text'', Level = ''error''\<rparr>
             (after [(''a'', None, Configuration)])) \<noteq> NopLogger"
    by (simp add: CreateStdSyncLogger_eq isLevelNone_error)
  from shared_writers_created_once[of "[(''a'', None, Configuration)]"
      "(''b'', Some 0, \<lparr>Format = ''text'', Level = ''error''\<rparr>)"
      "''a''" None Configuration "[]"
      "''b''" "Some 0" "\<lparr>Format = ''text'', Level = ''error''\<rparr>" "[(''a'', None, Configuration)]" WarnValue]
    a b c
  show ?thesis by simp
qed

text \<open>
  C1, amended. Let the configured level be one of the four levels, \<open>L\<close>, and let the first
  level key of the entry be paired with the level value \<open>S\<close>. The entry is handed to the
  encoder of the error stream exactly when \<open>S\<close> is the error level, whatever \<open>L\<close> is, and
  then the standard stream gets nothing. When \<open>S\<close> is not the error level and no level
  value stands on a value position before that pair, the entry is handed to the encoder
  of the standard stream exactly when \<open>L \<le> S\<close>.
\<close>

theorem routing_by_level:
  assumes "ToLower (TrimSpace (Level config)) = String L"
      and "levelKeyAt kvs i" and "Suc i < length kvs" and "kvs ! Suc i = Lvl S"
      and "CreateStdSyncLogger n c config (after cs) = (lg, g)"
      and "LoggerLog lg kvs w = (r, w')"
  shows "written w' Stderr =
           (if S = ErrorValue
            then written w Stderr @
                   [padMissing ([Str ''ts'', DefaultTimestampUTC, Str ''caller'', Caller 5]
                                @ kvs @ [Str ''logger'', Str n])]
            else written w Stderr)
         \<and> (S = ErrorValue \<longrightarrow> written w' Stdout = written w Stdout)
         \<and> (S \<noteq> ErrorValue \<and> noLevelBefore kvs i \<longrightarrow>
              written w' Stdout =
                (if rank L \<le> rank S
                 then written w Stdout @
                        [padMissing ([Str ''ts'', DefaultTimestampUTC] @ kvs @ [Str ''logger'', Str n])]
                 else written w Stdout))"
proof -
  note lv = level_string[OF assms(1)]
  define l where "l = \<lparr>loggers = Some
              [ErrorValue \<mapsto> Context (JSONLogger (Some (SyncWriter Stderr 1)))
                                     [Str ''ts'', DefaultTimestampUTC, Str ''caller'', Caller 5],
               WarnValue \<mapsto> Filter (Context (JSONLogger (Some (SyncWriter Stdout 0)))
                                     [Str ''ts'', DefaultTimestampUTC]) {v. rank L \<le> rank v},
               InfoValue \<mapsto> Filter (Context (JSONLogger (Some (SyncWriter Stdout 0)))
                                     [Str ''ts'', DefaultTimestampUTC]) {v. rank L \<le> rank v},
               DebugValue \<mapsto> Filter (Context (JSONLogger (Some (SyncWriter Stdout 0)))
                                     [Str ''ts'', DefaultTimestampUTC]) {v. rank L \<le> rank v}],
              counter = c, name = n\<rparr>"
  from assms(5) lv have lg: "lg = Routing l"
    by (simp add: CreateStdSyncLogger_eq onceDo_after onceDo_initial l_def)
  have "Log l kvs w = deliver l kvs S w" using assms(2-4) by (rule Log_at)
  with assms(6) lg have d: "w' = snd (deliver l kvs S w)" by simp
  define w1 where "w1 = (case c of None \<Rightarrow> w | Some k \<Rightarrow> Add k (String S) w)"
  have w1: "written w1 = written w" by (simp add: w1_def written_Add split: option.splits)
  show ?thesis
  proof (cases "S = ErrorValue")
    case True
    have "deliver l kvs S w = appenderLog (Context (JSONLogger (Some (SyncWriter Stderr 1)))
                    [Str ''ts'', DefaultTimestampUTC, Str ''caller'', Caller 5])
                   (kvs @ [Str ''logger'', Str n]) w1"
      unfolding deliver_def w1_def using True by (simp add: l_def Let_def)
    with d have "w' = snd (appenderLog (Context (JSONLogger (Some (SyncWriter Stderr 1)))
                    [Str ''ts'', DefaultTimestampUTC, Str ''caller'', Caller 5])
                   (kvs @ [Str ''logger'', Str n]) w1)"
      by simp
    with True w1 show ?thesis by simp
  next
    case False
    then have tgt: "the (loggers l) S = Some (Filter (Context (JSONLogger (Some (SyncWriter Stdout 0)))
                                     [Str ''ts'', DefaultTimestampUTC]) {v. rank L \<le> rank v})"
      by (cases S) (simp_all add: l_def)
    have "deliver l kvs S w = appenderLog (Filter (Context (JSONLogger (Some (SyncWriter Stdout 0)))
                                     [Str ''ts'', DefaultTimestampUTC]) {v. rank L \<le> rank v})
                   (kvs @ [Str ''logger'', Str n]) w1"
      unfolding deliver_def w1_def using tgt by (simp add: l_def Let_def)
    with d have w': "w' = snd (appenderLog (Filter (Context (JSONLogger (Some (SyncWriter Stdout 0)))
                                     [Str ''ts'', DefaultTimestampUTC]) {v. rank L \<le> rank v})
                   (kvs @ [Str ''logger'', Str n]) w1)"
      by simp
    have err: "written w' Stderr = written w Stderr"
      unfolding w' using w1 by (simp split: option.splits)
    have out: "noLevelBefore kvs i \<Longrightarrow> written w' Stdout =
                (if rank L \<le> rank S
                 then written w Stdout @
                        [padMissing ([Str ''ts'', DefaultTimestampUTC] @ kvs @ [Str ''logger'', Str n])]
                 else written w Stdout)"
    proof -
      assume nb: "noLevelBefore kvs i"
      from assms(2) have "even i" by (simp add: levelKeyAt_def)
      from firstLevel_at[OF this assms(3,4) nb]
      have "firstLevel (kvs @ [Str ''logger'', Str n]) = Some S" .
      then show ?thesis unfolding w' using w1 by simp
    qed
    from False err out show ?thesis by simp
  qed
qed

text \<open>
  As the claim is stated, without the condition on earlier level values, it fails: with
  the level \<open>error\<close> configured, the entry below has the level key paired with the debug
  level, and is handed to the encoder of the standard stream, because the filter of go-kit
  finds the error level value on the first value position.
\<close>

theorem routing_by_level_counterexample:
  "levelKeyAt [Str ''key'', Lvl ErrorValue, Str ''level'', Lvl DebugValue] 2
   \<and> [Str ''key'', Lvl ErrorValue, Str ''level'', Lvl DebugValue] ! 3 = Lvl DebugValue
   \<and> ToLower (TrimSpace ''error'') = String ErrorValue
   \<and> \<not> rank ErrorValue \<le> rank DebugValue
   \<and> written (snd (LoggerLog
        (fst (CreateStdSyncLogger ''fake'' None \<lparr>Format = ''json'', Level = ''error''\<rparr> initialGlobals))
        [Str ''key'', Lvl ErrorValue, Str ''level'', Lvl DebugValue] emptyWorld)) Stdout
     = [[Str ''ts'', DefaultTimestampUTC, Str ''key'', Lvl ErrorValue, Str ''level'', Lvl DebugValue,
         Str ''logger'', Str ''fake'']]"
proof -
  have k: "levelKeyAt [Str ''key'', Lvl ErrorValue, Str ''level'', Lvl DebugValue] 2"
    by (simp add: levelKeyAt_def Key_def less_Suc_eq numeral_2_eq_2)
  have v: "getValidLevel ''error'' = AllowError" by (simp add: getValidLevel_def lower_error)
  have "written (snd (LoggerLog
        (fst (CreateStdSyncLogger ''fake'' None \<lparr>Format = ''json'', Level = ''error''\<rparr> initialGlobals))
        [Str ''key'', Lvl ErrorValue, Str ''level'', Lvl DebugValue] emptyWorld)) Stdout
     = [[Str ''ts'', DefaultTimestampUTC, Str ''key'', Lvl ErrorValue, Str ''level'', Lvl DebugValue,
         Str ''logger'', Str ''fake'']]"
    by (simp add: CreateStdSyncLogger_eq isLevelNone_error onceDo_initial v AllowError_def Log_def Key_def
        deliver_def Let_def emptyWorld_def padMissing_def)
  with k show ?thesis by (simp add: lower_error)
qed

text \<open>
  With the level \<open>warn\<close> configured an info entry reaches neither stream and a warn
  entry reaches the standard stream.
\<close>

theorem routing_by_level_witness:
  "written (snd (LoggerLog
       (fst (CreateStdSyncLogger ''fake'' (Some 0) \<lparr>Format = ''json'', Level = '' WARN''\<rparr> (after [])))
       [Str ''level'', Lvl InfoValue, Str ''key'', Str ''value''] emptyWorld)) Stdout = []
   \<and> written (snd (LoggerLog
       (fst (CreateStdSyncLogger ''fake'' (Some 0) \<lparr>Format = ''json'', Level = '' WARN''\<rparr> (after [])))
       [Str ''level'', Lvl InfoValue, Str ''key'', Str ''value''] emptyWorld)) Stderr = []
   \<and> written (snd (LoggerLog
       (fst (CreateStdSyncLogger ''fake'' (Some 0) \<lparr>Format = ''json'', Level = '' WARN''\<rparr> (after [])))
       [Str ''level'', Lvl WarnValue, Str ''key'', Str ''value''] emptyWorld)) Stdout
     = [[Str ''ts'', DefaultTimestampUTC, Str ''level'', Lvl WarnValue, Str ''key'', Str ''value'',
         Str ''logger'', Str ''fake'']]"
proof -
  have s: "ToLower (TrimSpace (Level \<lparr>Format = ''json'', Level = '' WARN''\<rparr>)) = String WarnValue"
    by (simp add: lower_warn)
  have k1: "levelKeyAt [Str ''level'', Lvl InfoValue, Str ''key'', Str ''value''] 0"
    by (simp add: levelKeyAt_def Key_def)
  have k2: "levelKeyAt [Str ''level'', Lvl WarnValue, Str ''key'', Str ''value''] 0"
    by (simp add: levelKeyAt_def Key_def)
  have n1: "noLevelBefore [Str ''level'', Lvl InfoValue, Str ''key'', Str ''value''] 0"
    by (simp add: noLevelBefore_def)
  have n2: "noLevelBefore [Str ''level'', Lvl WarnValue, Str ''key'', Str ''value''] 0"
    by (simp add: noLevelBefore_def)
  from routing_by_level[OF s k1 _ _ surjective_pairing surjective_pairing, of InfoValue "''fake''" "Some 0" "[]" emptyWorld]
       routing_by_level[OF s k2 _ _ surjective_pairing surjective_pairing, of WarnValue "''fake''" "Some 0" "[]" emptyWorld]
       n1 n2
  show ?thesis by (simp add: emptyWorld_def padMissing_def)
qed

end
